theory Spec2Isabelle
  imports Main "HOL-Library.Stream" "HOL-Library.Sublist" "HOL-Library.Multiset"
begin

section \<open>Python values used by the planner\<close>

text \<open>
  The planner is a single Python module. Strings are modelled as \<^typ>\<open>string\<close>; a
  character outside ASCII is the sequence of its UTF-8 bytes, which keeps equality of
  strings exactly as in Python. Integers are Python's unbounded integers, hence
  \<^typ>\<open>int\<close>. An exception is a value of the type below.
\<close>

datatype py_error = ValueError | IndexError | KeyError | TypeError | RequestException

definition deg :: string where
  "deg = [CHR 0xC2, CHR 0xB0]"

definition ndash :: string where
  "ndash = [CHR 0xE2, CHR 0x80, CHR 0x93]"

definition minus_sign :: string where
  "minus_sign = [CHR 0xE2, CHR 0x88, CHR 0x92]"

definition konnichiwa :: string where
  "konnichiwa = [CHR 0xE3, CHR 0x81, CHR 0x93, CHR 0xE3, CHR 0x82, CHR 0x93, CHR 0xE3, CHR 0x81,
     CHR 0xAB, CHR 0xE3, CHR 0x81, CHR 0xA1, CHR 0xE3, CHR 0x81, CHR 0xAF]"

definition arigatou :: string where
  "arigatou = [CHR 0xE3, CHR 0x81, CHR 0x82, CHR 0xE3, CHR 0x82, CHR 0x8A, CHR 0xE3, CHR 0x81,
     CHR 0x8C, CHR 0xE3, CHR 0x81, CHR 0xA8, CHR 0xE3, CHR 0x81, CHR 0x86]"

section \<open>Advice lookup and budget tip\<close>

text \<open>
  A \<open>datetime.date\<close> has the three integer fields below; its constructor admits only
  months from 1 to 12. \<open>strftime("%B")\<close> is the English month name.
\<close>

record date =
  year :: int
  month :: int
  day :: int

definition month_names :: "string list" where
  "month_names = [''January'', ''February'', ''March'', ''April'', ''May'', ''June'', ''July'',
     ''August'', ''September'', ''October'', ''November'', ''December'']"

definition strftime_B :: "date \<Rightarrow> string" where
  "strftime_B d =
     (if 1 \<le> month d \<and> month d \<le> 12 then month_names ! nat (month d - 1) else [])"

definition get_travel_advice :: "string \<Rightarrow> date \<Rightarrow> string \<times> string" where
  "get_travel_advice destination travel_date =
    (let month = month travel_date;
         month_name = strftime_B travel_date
     in
     if destination = ''Paris'' then
       (if month \<in> set [12, 1, 2] then
          ''In '' @ month_name @ '', Paris is wintry (around 5-10'' @ deg @ ''C) '' @ ndash @ '' pack heavy, warm clothing.''
        else if month \<in> set [3, 4, 5] then
          ''In '' @ month_name @ '', Paris enjoys mild spring weather (10-15'' @ deg @ ''C) with occasional rain '' @ ndash @ '' bring a light jacket and umbrella.''
        else if month \<in> set [6, 7, 8] then
          ''In '' @ month_name @ '', Paris is pleasantly warm (20-25'' @ deg @ ''C) though evenings can be cool '' @ ndash @ '' opt for light clothing and a sweater.''
        else
          ''In '' @ month_name @ '', Paris is cool and sometimes rainy (10-15'' @ deg @ ''C) '' @ ndash @ '' layering is advisable.'',
        ''French is the official language. Basic phrases like 'Bonjour', 'Merci', and 'Au revoir' are very useful.'')
     else if destination = ''Tokyo'' then
       (if month \<in> set [12, 1, 2] then
          ''During '' @ month_name @ '', Tokyo can be chilly (5-10'' @ deg @ ''C) '' @ ndash @ '' pack warm layers.''
        else if month \<in> set [3, 4, 5] then
          ''In '' @ month_name @ '', Tokyo enjoys mild weather (10-18'' @ deg @ ''C) with some rain '' @ ndash @ '' dress in layers and carry an umbrella.''
        else if month \<in> set [6, 7, 8] then
          ''In '' @ month_name @ '', Tokyo is hot and humid (25-30'' @ deg @ ''C) '' @ ndash @ '' wear light, breathable clothing and use sunscreen.''
        else
          ''In '' @ month_name @ '', Tokyo's weather is mild with occasional showers (15-20'' @ deg @ ''C) '' @ ndash @ '' a light jacket is sufficient.'',
        ''Japanese is the primary language. Learning phrases like '' @ [CHR 0x27] @ konnichiwa @ '' (Konnichiwa)' and '' @ [CHR 0x27] @ arigatou @ '' (Arigatou)' can enhance your trip.'')
     else if destination = ''New York'' then
       (if month \<in> set [12, 1, 2] then
          ''New York in '' @ month_name @ '' is cold ('' @ minus_sign @ ''2'' @ deg @ ''C to 5'' @ deg @ ''C) '' @ ndash @ '' heavy winter attire is a must.''
        else if month \<in> set [3, 4, 5] then
          ''In '' @ month_name @ '', New York is mild (10-18'' @ deg @ ''C) but can be unpredictable '' @ ndash @ '' dress in layers and bring a raincoat.''
        else if month \<in> set [6, 7, 8] then
          month_name @ '' in New York is hot and humid (25-30'' @ deg @ ''C) '' @ ndash @ '' wear light clothing and stay hydrated.''
        else
          ''During '' @ month_name @ '', New York has moderate temperatures (10-20'' @ deg @ ''C) '' @ ndash @ '' layered clothing is recommended.'',
        ''English is the primary language.'')
     else if destination = ''Goa'' then
       (if month \<in> set [12, 1, 2] then
          ''In '' @ month_name @ '', Goa is cooler (20-25'' @ deg @ ''C) and ideal for sightseeing '' @ ndash @ '' pack a light jacket for evenings.''
        else if month \<in> set [3, 4, 5] then
          month_name @ '' in Goa is warm (25-30'' @ deg @ ''C) and dry '' @ ndash @ '' opt for very light, breathable clothing.''
        else if month \<in> set [6, 7, 8] then
          ''During '' @ month_name @ '', Goa is hot and humid (28-33'' @ deg @ ''C) with occasional rain '' @ ndash @ '' choose ultra-light clothes, use sunscreen, and stay hydrated.''
        else
          ''In '' @ month_name @ '', Goa is pleasantly warm (25-30'' @ deg @ ''C) with a chance of brief showers '' @ ndash @ '' pack accordingly.'',
        ''English is widely spoken along with Konkani. Basic English usually suffices.'')
     else
       (''Weather in '' @ destination @ '' during '' @ month_name @ '' can be variable '' @ ndash @ '' please check the forecast and pack accordingly.'',
        ''Local languages in '' @ destination @ '' may vary '' @ ndash @ '' consider learning a few basic phrases or using a translation app.''))"

definition low_budget_message :: string where
  "low_budget_message = ''Opt for budget-friendly dining, public transport, and free attractions.''"

definition mid_budget_message :: string where
  "mid_budget_message =
     ''Mix economical choices with occasional splurges on well-reviewed experiences.''"

definition premium_message :: string where
  "premium_message = ''Enjoy premium experiences, fine dining, and exclusive guided tours.''"

definition get_budget_tip :: "int \<Rightarrow> string" where
  "get_budget_tip budget =
     (if budget < 30000 then low_budget_message
      else if budget < 70000 then mid_budget_message
      else premium_message)"

section \<open>Randomness and sets\<close>

text \<open>
  The module draws from Python's global generator. The generator is modelled as the
  stream of the natural numbers it will deliver, threaded through every function that
  draws: each draw takes the head of the stream and returns the tail. \<open>randbelow n\<close>
  reduces the head modulo \<open>n\<close>, so every sequence of indices arises from some stream.
  \<open>random.randrange(n)\<close> raises \<open>ValueError\<close> when \<open>n\<close> is 0.
\<close>

type_synonym rng = "nat stream"

definition randbelow :: "nat \<Rightarrow> rng \<Rightarrow> nat \<times> rng" where
  "randbelow n g = (shd g mod n, stl g)"

definition randrange :: "nat \<Rightarrow> rng \<Rightarrow> py_error + nat \<times> rng" where
  "randrange n g = (if n = 0 then Inl ValueError else Inr (randbelow n g))"

text \<open>
  \<open>random.choice\<close> is applied to the two literal lists of the fallback generator only,
  both non-empty, so its \<open>IndexError\<close> on an empty sequence has no branch here.
\<close>

definition random_choice :: "'a list \<Rightarrow> rng \<Rightarrow> 'a \<times> rng" where
  "random_choice xs g = (case randbelow (length xs) g of (i, g') \<Rightarrow> (xs ! i, g'))"

text \<open>
  The outcome of the test \<open>random.random() < 0.6\<close>. The float itself is not modelled,
  only the truth value of the comparison, which again can be any sequence of booleans.
\<close>

definition random_below_06 :: "rng \<Rightarrow> bool \<times> rng" where
  "random_below_06 g = (shd g mod 10 < 6, stl g)"

text \<open>
  A Python \<open>set\<close> is kept as the list of its elements in insertion order, without
  repetition. The order in which \<open>list(s)\<close> enumerates a set is decided by the hash
  values of the elements, which the interpreter randomises per process; it is a parameter
  of the model, a key by which the elements are sorted.
\<close>

definition set_add :: "'a \<Rightarrow> 'a list \<Rightarrow> 'a list" where
  "set_add x s = (if x \<in> set s then s else s @ [x])"

definition py_set :: "'a list \<Rightarrow> 'a list" where
  "py_set xs = foldl (\<lambda>s x. set_add x s) [] xs"

definition list_of_set :: "('a \<Rightarrow> nat) \<Rightarrow> 'a list \<Rightarrow> 'a list" where
  "list_of_set hash_order s = sort_key hash_order s"

section \<open>Fallback generator\<close>

definition templates :: "string list" where
  "templates = [
     ''Explore local art galleries in {}'',
     ''Attend a live music concert in {}'',
     ''Experience a local music festival in {}'',
     ''Relax in a scenic park in {}'',
     ''Visit a quirky museum in {}'',
     ''Discover historical heritage at a museum in {}'',
     ''Shop at local markets in {}'',
     ''Browse boutique shops in {}'',
     ''Join a guided historical tour in {}'',
     ''Take a local cooking class in {}'',
     ''Discover hidden alleys in {}'',
     ''Stroll along the coastline in {}'',
     ''Enjoy an evening cruise in {}'',
     ''Attend an art exhibition in {}'',
     ''Join a street art tour in {}'',
     ''Visit an open-air festival in {}'',
     ''Savor regional street food in {}'',
     ''Take a bicycle tour in {}'',
     ''Join a cultural workshop in {}'',
     ''Discover local handicrafts in {}'']"

definition adjectives :: "string list" where
  "adjectives = [''amazing'', ''unforgettable'', ''charming'', ''historic'',
     ''vibrant'', ''quaint'', ''dynamic'', ''bustling'', ''splendid'',
     ''exciting'', ''remarkable'']"

text \<open>
  \<open>tpl.format(arg)\<close> for a template with one replacement field \<open>{}\<close>, as all
  templates above are: the field is replaced by the argument, the rest is copied.
\<close>

fun str_format :: "string \<Rightarrow> string \<Rightarrow> string" where
  "str_format (c # d # cs) arg =
     (if c = CHR ''{'' \<and> d = CHR ''}'' then arg @ cs else c # str_format (d # cs) arg)"
| "str_format cs arg = cs"

text \<open>
  The loop of \<open>generate_dynamic_fallback\<close>. The conditional expression for the prefix
  evaluates its test first, so the adjective is drawn after the coin and only when the
  coin says so. The state of the loop is the set, the attempt counter and the generator;
  \<open>cnt\<close> is the parameter \<open>count\<close> of the source.
\<close>

function gdf_loop :: "string \<Rightarrow> int \<Rightarrow> string list \<Rightarrow> int \<Rightarrow> rng \<Rightarrow> string list \<times> int \<times> rng" where
  "gdf_loop destination cnt fallbacks attempts g =
     (if int (length fallbacks) < cnt \<and> attempts < cnt * 10 then
        (case random_choice templates g of (tpl, g1) \<Rightarrow>
         case random_below_06 g1 of (below, g2) \<Rightarrow>
         case (if below
               then (case random_choice adjectives g2 of (adj, g3) \<Rightarrow> (adj @ '' '', g3))
               else ('''', g2)) of (pfx, g3) \<Rightarrow>
           gdf_loop destination cnt
             (set_add (str_format tpl (pfx @ destination)) fallbacks) (attempts + 1) g3)
      else (fallbacks, attempts, g))"
  by pat_completeness auto
termination
  by (relation "measure (\<lambda>(destination, cnt, fallbacks, attempts, g). nat (cnt * 10 - attempts))")
    auto

declare gdf_loop.simps [simp del]

definition generate_dynamic_fallback :: "(string \<Rightarrow> nat) \<Rightarrow> string \<Rightarrow> int \<Rightarrow> rng \<Rightarrow> string list \<times> rng" where
  "generate_dynamic_fallback hash_order destination cnt g =
     (case gdf_loop destination cnt [] 0 g of
        (fallbacks, attempts, g') \<Rightarrow> (list_of_set hash_order fallbacks, g'))"

definition get_fallback_list :: "(string \<Rightarrow> nat) \<Rightarrow> string \<Rightarrow> rng \<Rightarrow> string list \<times> rng" where
  "get_fallback_list hash_order destination g =
     generate_dynamic_fallback hash_order destination 50 g"

section \<open>Pool builder\<close>

text \<open>
  The first loop of \<open>create_global_pool\<close> copies the tasks that are not yet in the
  pool; the second draws an index into the fallback list until the pool has the
  required size. The second loop has no bound of its own, so it is a partial function:
  \<open>None\<close> is a run that never returns, \<open>Some (Inl e)\<close> one that raises \<open>e\<close>.
\<close>

fun add_unique :: "'a list \<Rightarrow> 'a list \<Rightarrow> 'a list" where
  "add_unique unique_tasks [] = unique_tasks"
| "add_unique unique_tasks (task # tasks) =
     add_unique (if task \<notin> set unique_tasks then unique_tasks @ [task] else unique_tasks) tasks"

partial_function (option) top_up :: "'a list \<Rightarrow> int \<Rightarrow> 'a list \<Rightarrow> rng \<Rightarrow> (py_error + 'a list \<times> rng) option" where
  "top_up fallback_list required unique_tasks g =
     (if int (length unique_tasks) < required then
        (case randrange (length fallback_list) g of
           Inl e \<Rightarrow> Some (Inl e)
         | Inr (i, g') \<Rightarrow>
             (let candidate = fallback_list ! i in
              if candidate \<notin> set unique_tasks
              then top_up fallback_list required (unique_tasks @ [candidate]) g'
              else top_up fallback_list required unique_tasks g'))
      else Some (Inr (unique_tasks, g)))"

definition create_global_pool :: "'a list \<Rightarrow> 'a list \<Rightarrow> string \<Rightarrow> int \<Rightarrow> rng \<Rightarrow> (py_error + 'a list \<times> rng) option" where
  "create_global_pool tasks fallback_list destination required g =
     top_up fallback_list required (add_unique [] tasks) g"

section \<open>Day sampler\<close>

text \<open>
  \<open>random.sample(population, k)\<close> belongs to Python's library. It raises
  \<open>ValueError\<close> unless \<open>0 \<le> k \<le> len(population)\<close>; otherwise it works on a copy of the
  population: \<open>k\<close> times it draws an index \<open>j\<close> below the number \<open>n\<close> of items still
  unselected, emits the item at \<open>j\<close> and moves the item at \<open>n - 1\<close> into position \<open>j\<close>.
\<close>

fun sample_loop :: "'a list \<Rightarrow> nat \<Rightarrow> nat \<Rightarrow> rng \<Rightarrow> 'a list \<times> rng" where
  "sample_loop pool n 0 g = ([], g)"
| "sample_loop pool n (Suc k) g =
     (case randbelow n g of (j, g') \<Rightarrow>
      case sample_loop (pool[j := pool ! (n - 1)]) (n - 1) k g' of (result, g'') \<Rightarrow>
        (pool ! j # result, g''))"

definition random_sample :: "'a list \<Rightarrow> int \<Rightarrow> rng \<Rightarrow> py_error + 'a list \<times> rng" where
  "random_sample population k g =
     (if k < 0 \<or> int (length population) < k then Inl ValueError
      else Inr (sample_loop population (length population) (nat k) g))"

text \<open>Python's \<open>xs[a:b]\<close> and \<open>range(n)\<close> on integers.\<close>

definition py_slice :: "'a list \<Rightarrow> int \<Rightarrow> int \<Rightarrow> 'a list" where
  "py_slice xs a b =
     (let n = int (length xs);
          lo = (if a < 0 then max 0 (a + n) else min a n);
          hi = (if b < 0 then max 0 (b + n) else min b n)
      in take (nat (hi - lo)) (drop (nat lo) xs))"

definition py_range :: "int \<Rightarrow> int list" where
  "py_range n = map int [0..<nat n]"

definition generate_groups_from_global_pool :: "'a list \<Rightarrow> int \<Rightarrow> int \<Rightarrow> rng \<Rightarrow> py_error + 'a list list \<times> rng" where
  "generate_groups_from_global_pool global_pool days tasks_per_day g =
     (let required = days * tasks_per_day in
      case random_sample global_pool required g of
        Inl e \<Rightarrow> Inl e
      | Inr (sampled_tasks, g') \<Rightarrow>
          Inr (map (\<lambda>i. py_slice sampled_tasks (i * tasks_per_day) ((i + 1) * tasks_per_day))
                 (py_range days), g'))"

text \<open>An itinerary is the list of its days, numbered from 1.\<close>

record 'a day_entry =
  Day :: int
  Activities :: "'a list"

definition make_itinerary :: "'a list list \<Rightarrow> 'a day_entry list" where
  "make_itinerary groups =
     map (\<lambda>(i, group). \<lparr>Day = int i + 1, Activities = group\<rparr>) (enumerate 0 groups)"

section \<open>Live-source fetch\<close>

text \<open>
  The values \<open>response.json()\<close> can return, which are also the values an activity can
  be once a response has been read. Numbers are integers here, and the keys of an object
  are kept in a list without repetition, as in a \<open>dict\<close>.
\<close>

datatype py_value =
    PNone
  | PBool bool
  | PInt int
  | PStr string
  | PList "py_value list"
  | PDict "(string \<times> py_value) list"

text \<open>
  Python's \<open>==\<close> on such values, used by \<open>in\<close> and \<open>not in\<close> on lists: \<open>True\<close>
  equals 1 and \<open>False\<close> equals 0, lists are compared element by element, dictionaries
  key by key whatever the order of the keys.
\<close>

fun py_eq :: "py_value \<Rightarrow> py_value \<Rightarrow> bool" where
  "py_eq PNone PNone = True"
| "py_eq (PBool a) (PBool b) = (a = b)"
| "py_eq (PBool a) (PInt n) = (n = (if a then 1 else 0))"
| "py_eq (PInt n) (PBool a) = (n = (if a then 1 else 0))"
| "py_eq (PInt m) (PInt n) = (m = n)"
| "py_eq (PStr s) (PStr t) = (s = t)"
| "py_eq (PList xs) (PList ys) = list_all2 py_eq xs ys"
| "py_eq (PDict kvs) (PDict kws) =
     (length kvs = length kws \<and>
      (\<forall>(k, v) \<in> set kvs. \<exists>(k', w) \<in> set kws. k = k' \<and> py_eq v w))"
| "py_eq _ _ = False"

definition py_in :: "py_value \<Rightarrow> py_value list \<Rightarrow> bool" where
  "py_in x xs = list_ex (\<lambda>item. py_eq item x) xs"

text \<open>
  \<open>data[1]\<close> and \<open>for t in tasks\<close>. A list or a string with fewer than two elements
  has no element 1; a dictionary decoded from JSON has string keys only, so the key 1 is
  missing; \<open>None\<close>, booleans and numbers can neither be subscripted nor iterated. A
  string yields its characters as strings of length one, a dictionary its keys. The
  characters of a string are those of the list here, which is Python's reading for ASCII
  strings.
\<close>

fun subscript1 :: "py_value \<Rightarrow> py_error + py_value" where
  "subscript1 (PList xs) = (if 1 < length xs then Inr (xs ! 1) else Inl IndexError)"
| "subscript1 (PStr s) = (if 1 < length s then Inr (PStr [s ! 1]) else Inl IndexError)"
| "subscript1 (PDict kvs) = Inl KeyError"
| "subscript1 _ = Inl TypeError"

fun py_iter :: "py_value \<Rightarrow> py_error + py_value list" where
  "py_iter (PList xs) = Inr xs"
| "py_iter (PStr s) = Inr (map (\<lambda>c. PStr [c]) s)"
| "py_iter (PDict kvs) = Inr (map (\<lambda>(k, v). PStr k) kvs)"
| "py_iter _ = Inl TypeError"

text \<open>
  What one call of \<open>requests.get\<close> can come to: an exception (no connection, timeout),
  or a response with a status code and a body, where the body is \<open>None\<close> when it is not
  JSON and \<open>response.json()\<close> raises. The network is the list of outcomes that successive
  requests will meet; with nothing left, a request fails. \<open>raise_for_status\<close> raises for
  the status codes from 400 to 599.
\<close>

datatype http_outcome =
    ConnectionFailed
  | Response (status_code: nat) (body: "py_value option")

fun requests_get :: "http_outcome list \<Rightarrow> http_outcome \<times> http_outcome list" where
  "requests_get [] = (ConnectionFailed, [])"
| "requests_get (r # net) = (r, net)"

definition raise_for_status :: "nat \<Rightarrow> bool" where
  "raise_for_status status \<longleftrightarrow> 400 \<le> status \<and> status < 600"

text \<open>
  The statements of the \<open>try\<close> block up to the loop header of the deduplication: the
  request, the status check, the decoding, \<open>data[1]\<close> and the start of the iteration.
\<close>

definition fetch_tasks :: "http_outcome \<Rightarrow> py_error + py_value list" where
  "fetch_tasks r =
     (case r of
        ConnectionFailed \<Rightarrow> Inl RequestException
      | Response status payload \<Rightarrow>
          if raise_for_status status then Inl RequestException
          else (case payload of
                  None \<Rightarrow> Inl ValueError
                | Some data \<Rightarrow>
                    (case subscript1 data of
                       Inl e \<Rightarrow> Inl e
                     | Inr tasks \<Rightarrow> py_iter tasks)))"

fun py_unique :: "py_value list \<Rightarrow> py_value list \<Rightarrow> py_value list" where
  "py_unique unique_tasks [] = unique_tasks"
| "py_unique unique_tasks (t # tasks) =
     py_unique (if \<not> py_in t unique_tasks then unique_tasks @ [t] else unique_tasks) tasks"

text \<open>
  \<open>fetch_itinerary_from_wiki\<close>. Every exception raised inside the \<open>try\<close> block ends
  in the handler that returns the empty list. The generator is left where the exception
  found it: \<open>randrange\<close> and \<open>random.sample\<close> raise before they draw.
\<close>

definition fetch_itinerary_from_wiki :: "(string \<Rightarrow> nat) \<Rightarrow> string \<Rightarrow> int \<Rightarrow> http_outcome list \<Rightarrow> rng \<Rightarrow> (py_value day_entry list \<times> http_outcome list \<times> rng) option" where
  "fetch_itinerary_from_wiki hash_order destination duration net g =
     (let points_required = duration * 3 in
      case requests_get net of (r, net') \<Rightarrow>
      case fetch_tasks r of
        Inl e \<Rightarrow> Some ([], net', g)
      | Inr tasks \<Rightarrow>
          (let tasks = py_unique [] tasks in
           case get_fallback_list hash_order destination g of (fallback_list, g1) \<Rightarrow>
           case create_global_pool tasks (map PStr fallback_list) destination points_required g1 of
             None \<Rightarrow> None
           | Some (Inl e) \<Rightarrow> Some ([], net', g1)
           | Some (Inr (global_pool, g2)) \<Rightarrow>
               (case generate_groups_from_global_pool global_pool duration 3 g2 of
                  Inl e \<Rightarrow> Some ([], net', g2)
                | Inr (groups, g3) \<Rightarrow> Some (make_itinerary groups, net', g3))))"

section \<open>The Generate Itinerary handler\<close>

definition preset_itineraries :: "(string \<times> string list) list" where
  "preset_itineraries = [
    (''Paris'', [
       ''Morning: Visit the Eiffel Tower and enjoy panoramic views.'',
       ''Late Morning: Explore the Louvre Museum to see timeless artworks.'',
       ''Afternoon: Savor lunch at a charming caf'' @ [CHR 0xC3, CHR 0xA9] @ '' along the Seine.'',
       ''Early Afternoon: Visit the exterior of Notre-Dame Cathedral and wander historic streets.'',
       ''Late Afternoon: Stroll through Montmartre and admire Sacr'' @ [CHR 0xC3, CHR 0xA9] @ ''-C'' @ [CHR 0xC5, CHR 0x93] @ ''ur Basilica.'',
       ''Evening: Dine in a traditional French bistro and sample local specialties.'',
       ''Night: Enjoy a scenic river cruise on the Seine with illuminated landmarks.'']),
    (''Tokyo'', [
       ''Morning: Begin at Senso-ji Temple in Asakusa and explore bustling market streets.'',
       ''Late Morning: Wander along Nakamise Street while sampling traditional snacks.'',
       ''Afternoon: Enjoy a sushi lunch at a renowned local eatery.'',
       ''Early Afternoon: Stroll through Ueno Park and visit eclectic museums.'',
       ''Late Afternoon: Experience the energy of Shibuya Crossing.'',
       ''Evening: Dine in Shinjuku and take in the lively nightlife.'',
       ''Night: Relax at an izakaya or enjoy city views from an observatory.'']),
    (''New York'', [
       ''Morning: Start with breakfast in Times Square to feel the city'' @ [CHR 0xE2, CHR 0x80, CHR 0x99] @ ''s energy.'',
       ''Late Morning: Walk through Central Park, visiting iconic spots like Bethesda Terrace.'',
       ''Afternoon: Have lunch at a famous deli and visit a world-class museum.'',
       ''Early Afternoon: Explore trendy neighborhoods like SoHo for art and shopping.'',
       ''Late Afternoon: Take a ferry ride to see the Statue of Liberty up close.'',
       ''Evening: Enjoy a Broadway show followed by dinner at a top-tier restaurant.'',
       ''Night: Experience the vibrant nightlife or take a relaxing stroll through a buzzing district.'']),
    (''Goa'', [
       ''Morning: Relax on Baga Beach and watch a serene sunrise over the Arabian Sea.'',
       ''Late Morning: Explore Fort Aguada for its historic charm and coastal views.'',
       ''Afternoon: Savor a seafood lunch at a beachside shack.'',
       ''Early Afternoon: Tour a spice plantation to learn about local flavors.'',
       ''Late Afternoon: Enjoy water sports or take a boat ride along the coast.'',
       ''Evening: Stroll along the beach while sampling local street food.'',
       ''Night: Dine on authentic Goan cuisine and enjoy live music by the sea.''])]"

definition extra_tasks :: "string \<Rightarrow> string list" where
  "extra_tasks destination =
     (if destination = ''Goa'' then [
        ''Explore local art galleries in Goa'',
        ''Attend a cultural performance in Goa'',
        ''Relax in one of Goa's scenic parks'',
        ''Visit an offbeat museum in Goa'',
        ''Experience the vibrant nightlife of Goa'',
        ''Take a local cooking class in Goa'',
        ''Shop at Mapusa Market in Goa'',
        ''Shop at Anjuna Flea Market in Goa'',
        ''Join a guided historical tour in Goa'']
      else if destination = ''Paris'' then [
        ''Explore chic boutiques and art galleries in Paris'',
        ''Attend a classical music concert in Paris'',
        ''Relax at a riverside park in Paris'',
        ''Visit a contemporary art museum in Paris'',
        ''Experience Parisian nightlife in trendy bars'',
        ''Take a pastry-making class in Paris'',
        ''Shop at local flea markets in Paris'',
        ''Join a guided walking tour in Montmartre'']
      else if destination = ''Tokyo'' then [
        ''Explore futuristic art galleries in Tokyo'',
        ''Attend a traditional Kabuki performance in Tokyo'',
        ''Relax in a serene Japanese garden in Tokyo'',
        ''Visit a modern museum in Tokyo'',
        ''Experience Tokyo's bustling nightlife in Shibuya'',
        ''Take a sushi-making class in Tokyo'',
        ''Shop at local district markets in Tokyo'',
        ''Join a guided tour of historical temples in Tokyo'']
      else if destination = ''New York'' then [
        ''Explore local art galleries in New York'',
        ''Attend a Broadway musical in New York'',
        ''Relax in Central Park'',
        ''Visit a cutting-edge museum in New York'',
        ''Experience New York's vibrant nightlife'',
        ''Take a culinary tour of New York's diverse neighborhoods'',
        ''Shop at trendy boutiques and street fairs in New York'',
        ''Join a guided historical tour of Manhattan'']
      else [
        ''Explore local art galleries in '' @ destination,
        ''Attend a cultural performance in '' @ destination,
        ''Relax in a scenic park in '' @ destination,
        ''Visit a modern museum in '' @ destination,
        ''Experience vibrant nightlife in '' @ destination,
        ''Take a local cooking class in '' @ destination,
        ''Shop at local markets in '' @ destination,
        ''Join a guided historical tour in '' @ destination])"


text \<open>
  \<open>str.strip\<close> and \<open>str.lower\<close> on ASCII: the whitespace characters are the tab, the
  line and page breaks, the four separators from 0x1C to 0x1F and the space; the letters
  from A to Z are moved to lower case and every other character is kept.
\<close>

definition ascii_whitespace :: "char list" where
  "ascii_whitespace = [CHR 0x09, CHR 0x0A, CHR 0x0B, CHR 0x0C, CHR 0x0D,
     CHR 0x1C, CHR 0x1D, CHR 0x1E, CHR 0x1F, CHR '' '']"

definition is_space :: "char \<Rightarrow> bool" where
  "is_space c \<longleftrightarrow> c \<in> set ascii_whitespace"

definition py_strip :: "string \<Rightarrow> string" where
  "py_strip s = rev (dropWhile is_space (rev (dropWhile is_space s)))"

definition lower_case :: "(char \<times> char) list" where
  "lower_case = zip ''ABCDEFGHIJKLMNOPQRSTUVWXYZ'' ''abcdefghijklmnopqrstuvwxyz''"

definition py_lower :: "string \<Rightarrow> string" where
  "py_lower s = map (\<lambda>c. case map_of lower_case c of Some l \<Rightarrow> l | None \<Rightarrow> c) s"

text \<open>
  The annotations. The departure line is put in front of the first day, the return line
  after the last day, both only under the guard on the starting location;
  \<open>itinerary[0]\<close> raises \<open>IndexError\<close> on an empty itinerary. Then every day gets the
  budget tip.
\<close>

definition annotate_itinerary :: "string \<Rightarrow> string \<Rightarrow> int \<Rightarrow> py_value day_entry list \<Rightarrow> py_error + py_value day_entry list" where
  "annotate_itinerary start_location destination budget itinerary =
     (case (if py_strip start_location \<noteq> [] \<and> py_lower start_location \<noteq> py_lower destination
            then (case itinerary of
                    [] \<Rightarrow> Inl IndexError
                  | day0 # rest \<Rightarrow>
                      (let departure_message =
                             ''Take a flight from '' @ start_location @ '' to '' @ destination @ ''.'';
                           itinerary1 =
                             day0\<lparr>Activities := PStr departure_message # Activities day0\<rparr> # rest;
                           return_message =
                             ''Take a flight from '' @ destination @ '' back to '' @ start_location @ ''.'';
                           n = length itinerary1;
                           last_day = itinerary1 ! (n - 1)
                       in Inr (itinerary1[n - 1 :=
                            last_day\<lparr>Activities := Activities last_day @ [PStr return_message]\<rparr>])))
            else Inr itinerary) of
        Inl e \<Rightarrow> Inl e
      | Inr itinerary' \<Rightarrow>
          (let budget_tip = get_budget_tip budget in
           Inr (map (\<lambda>day. day\<lparr>Activities := Activities day @ [PStr (''Budget Tip: '' @ budget_tip)]\<rparr>)
                  itinerary')))"

text \<open>
  Pool, groups and itinerary from a list of tasks, the three statements both branches of
  the handler share. Here an exception is not caught.
\<close>

definition build_itinerary :: "(string \<Rightarrow> nat) \<Rightarrow> py_value list \<Rightarrow> string \<Rightarrow> int \<Rightarrow> rng \<Rightarrow> (py_error + py_value day_entry list \<times> rng) option" where
  "build_itinerary hash_order tasks destination duration g =
     (case get_fallback_list hash_order destination g of (fallback_list, g1) \<Rightarrow>
      case create_global_pool tasks (map PStr fallback_list) destination (duration * 3) g1 of
        None \<Rightarrow> None
      | Some (Inl e) \<Rightarrow> Some (Inl e)
      | Some (Inr (global_pool, g2)) \<Rightarrow>
          (case generate_groups_from_global_pool global_pool duration 3 g2 of
             Inl e \<Rightarrow> Some (Inl e)
           | Inr (groups, g3) \<Rightarrow> Some (Inr (make_itinerary groups, g3))))"

text \<open>
  The handler of the button, up to the rendering: the itinerary of a preset destination
  or of the live source, with the synthetic itinerary when the live source gave none,
  then the annotations. The result is the annotated itinerary with what is left of the
  network and of the generator.
\<close>

definition generate_itinerary :: "(string \<Rightarrow> nat) \<Rightarrow> string \<Rightarrow> string \<Rightarrow> int \<Rightarrow> int \<Rightarrow> http_outcome list \<Rightarrow> rng \<Rightarrow> (py_error + py_value day_entry list \<times> http_outcome list \<times> rng) option" where
  "generate_itinerary hash_order destination start_location budget duration net g =
     (case (case map_of preset_itineraries destination of
              Some base_points \<Rightarrow>
                (let global_tasks =
                       list_of_set hash_order (py_set (base_points @ extra_tasks destination))
                 in case build_itinerary hash_order (map PStr global_tasks) destination duration g of
                      None \<Rightarrow> None
                    | Some (Inl e) \<Rightarrow> Some (Inl e)
                    | Some (Inr (itinerary, g')) \<Rightarrow> Some (Inr (itinerary, net, g')))
            | None \<Rightarrow>
                (case fetch_itinerary_from_wiki hash_order destination duration net g of
                   None \<Rightarrow> None
                 | Some (itinerary, net', g') \<Rightarrow>
                     if itinerary = [] then
                       (case build_itinerary hash_order [] destination duration g' of
                          None \<Rightarrow> None
                        | Some (Inl e) \<Rightarrow> Some (Inl e)
                        | Some (Inr (itinerary, g'')) \<Rightarrow> Some (Inr (itinerary, net', g'')))
                     else Some (Inr (itinerary, net', g')))) of
        None \<Rightarrow> None
      | Some (Inl e) \<Rightarrow> Some (Inl e)
      | Some (Inr (itinerary, net', g')) \<Rightarrow>
          (case annotate_itinerary start_location destination budget itinerary of
             Inl e \<Rightarrow> Some (Inl e)
           | Inr itinerary' \<Rightarrow> Some (Inr (itinerary', net', g'))))"

section \<open>Invariants and notions of the specification\<close>

text \<open>
  What the loop of the fallback generator keeps true of its set and its attempt counter,
  for a non-negative count.
\<close>

definition gdf_inv :: "string \<Rightarrow> int \<Rightarrow> string list \<Rightarrow> int \<Rightarrow> bool" where
  "gdf_inv destination cnt fallbacks attempts \<longleftrightarrow>
     distinct fallbacks \<and> (\<forall>s \<in> set fallbacks. sublist destination s) \<and>
     int (length fallbacks) \<le> cnt \<and> attempts \<le> cnt * 10"

text \<open>
  The pool builder's first loop in the words of the specification: the candidates with
  duplicates dropped, the first occurrence of each kept, in their original order.
\<close>

fun first_occurrences :: "'a list \<Rightarrow> 'a list" where
  "first_occurrences [] = []"
| "first_occurrences (x # xs) = x # first_occurrences (removeAll x xs)"

text \<open>
  The top-up loop returns with probability one, not for every sequence of draws: a
  generator that delivers index 0 for ever never finds a second item. What a proof of
  termination needs of the generator is that every index below \<open>n\<close> comes up again
  after any number of draws.
\<close>

definition fair_draws :: "nat \<Rightarrow> rng \<Rightarrow> bool" where
  "fair_draws n g \<longleftrightarrow> (\<forall>i<n. \<forall>k. \<exists>m\<ge>k. g !! m mod n = i)"

section \<open>Properties\<close>

subsection \<open>Advice lookup\<close>

text \<open>
  C7. \<open>get_travel_advice\<close> depends on the destination and the date only. For Paris and
  any date in July it returns the warm-summer sentence (20-25 degrees) together with the
  sentence on French phrases; for Paris and any date in January it returns the wintry
  sentence (5-10 degrees); for a destination that is none of the four presets it returns
  the two generic sentences, which name the destination and the month of the date.
\<close>

theorem get_travel_advice_paris_and_generic:
  "(month d = 7 \<longrightarrow>
      get_travel_advice ''Paris'' d =
        (''In July, Paris is pleasantly warm (20-25'' @ deg @ ''C) though evenings can be cool ''
           @ ndash @ '' opt for light clothing and a sweater.'',
         ''French is the official language. Basic phrases like 'Bonjour', 'Merci', and 'Au revoir' are very useful.'')) \<and>
   (month d = 1 \<longrightarrow>
      get_travel_advice ''Paris'' d =
        (''In January, Paris is wintry (around 5-10'' @ deg @ ''C) '' @ ndash
           @ '' pack heavy, warm clothing.'',
         ''French is the official language. Basic phrases like 'Bonjour', 'Merci', and 'Au revoir' are very useful.'')) \<and>
   (destination \<notin> {''Paris'', ''Tokyo'', ''New York'', ''Goa''} \<longrightarrow>
      get_travel_advice destination d =
        (''Weather in '' @ destination @ '' during '' @ strftime_B d @ '' can be variable ''
           @ ndash @ '' please check the forecast and pack accordingly.'',
         ''Local languages in '' @ destination @ '' may vary '' @ ndash
           @ '' consider learning a few basic phrases or using a translation app.''))"
  by (simp add: get_travel_advice_def strftime_B_def month_names_def)

theorem get_travel_advice_witness:
  "get_travel_advice ''Paris'' \<lparr>year = 2024, month = 7, day = 14\<rparr> =
     (''In July, Paris is pleasantly warm (20-25'' @ deg @ ''C) though evenings can be cool ''
        @ ndash @ '' opt for light clothing and a sweater.'',
      ''French is the official language. Basic phrases like 'Bonjour', 'Merci', and 'Au revoir' are very useful.'') \<and>
   fst (get_travel_advice ''Paris'' \<lparr>year = 2025, month = 1, day = 3\<rparr>) =
     ''In January, Paris is wintry (around 5-10'' @ deg @ ''C) '' @ ndash
        @ '' pack heavy, warm clothing.'' \<and>
   fst (get_travel_advice ''Lisbon'' \<lparr>year = 2025, month = 3, day = 9\<rparr>) =
     ''Weather in Lisbon during March can be variable '' @ ndash
        @ '' please check the forecast and pack accordingly.''"
  using get_travel_advice_paris_and_generic [of "\<lparr>year = 2024, month = 7, day = 14\<rparr>" "''Paris''"]
    get_travel_advice_paris_and_generic [of "\<lparr>year = 2025, month = 1, day = 3\<rparr>" "''Paris''"]
    get_travel_advice_paris_and_generic [of "\<lparr>year = 2025, month = 3, day = 9\<rparr>" "''Lisbon''"]
  by (simp add: strftime_B_def month_names_def)

subsection \<open>Budget tip\<close>

text \<open>
  C8. \<open>get_budget_tip\<close> sends every budget to exactly one of the three messages, and
  the two thresholds 30000 and 70000 decide which: the low-budget message below 30000, the
  mid-budget message from 30000 up to but not including 70000, the premium message from
  70000 on. In particular 20000, 50000 and 90000 give the low-budget, the mid-budget and
  the premium message.
\<close>

theorem get_budget_tip_thresholds:
  "(get_budget_tip b = low_budget_message) = (b < 30000) \<and>
   (get_budget_tip b = mid_budget_message) = (30000 \<le> b \<and> b < 70000) \<and>
   (get_budget_tip b = premium_message) = (70000 \<le> b) \<and>
   get_budget_tip 20000 =
     ''Opt for budget-friendly dining, public transport, and free attractions.'' \<and>
   get_budget_tip 50000 =
     ''Mix economical choices with occasional splurges on well-reviewed experiences.'' \<and>
   get_budget_tip 90000 =
     ''Enjoy premium experiences, fine dining, and exclusive guided tours.''"
  by (simp add: get_budget_tip_def low_budget_message_def mid_budget_message_def
      premium_message_def)

text \<open>
  C9. The comparisons are strict: a budget of exactly 30000 gets the mid-budget message,
  not the low-budget one, and a budget of exactly 70000 gets the premium message, not the
  mid-budget one.
\<close>

theorem get_budget_tip_boundaries:
  "get_budget_tip 30000 = mid_budget_message \<and> get_budget_tip 30000 \<noteq> low_budget_message \<and>
   get_budget_tip 70000 = premium_message \<and> get_budget_tip 70000 \<noteq> mid_budget_message"
  by (simp add: get_budget_tip_def low_budget_message_def mid_budget_message_def
      premium_message_def)

subsection \<open>Fallback generator\<close>

lemma str_format_templates:
  "tpl \<in> set templates \<Longrightarrow> \<exists>pre. str_format tpl arg = pre @ arg"
  unfolding templates_def by (auto simp: )

lemma length_templates: "length templates = 20"
  by (simp add: templates_def)

lemma random_choice_templates: "fst (random_choice templates g) \<in> set templates"
  by (simp add: random_choice_def randbelow_def length_templates)

lemma fallback_item_contains:
  "tpl \<in> set templates \<Longrightarrow> sublist destination (str_format tpl (pfx @ destination))"
proof -
  assume "tpl \<in> set templates"
  then obtain pre where "str_format tpl (pfx @ destination) = pre @ pfx @ destination"
    using str_format_templates by blast
  then have "str_format tpl (pfx @ destination) = (pre @ pfx) @ destination @ []"
    by simp
  then show ?thesis
    unfolding sublist_def by blast
qed

lemma gdf_inv_step:
  assumes "gdf_inv destination cnt fallbacks attempts"
    and "int (length fallbacks) < cnt" and "attempts < cnt * 10"
    and "tpl \<in> set templates"
  shows "gdf_inv destination cnt (set_add (str_format tpl (pfx @ destination)) fallbacks) (attempts + 1)"
  using assms fallback_item_contains [of tpl destination pfx]
  by (auto simp: gdf_inv_def set_add_def)

lemma gdf_loop_inv:
  "gdf_inv destination cnt fallbacks attempts \<Longrightarrow>
   gdf_loop destination cnt fallbacks attempts g = (fallbacks', attempts', g') \<Longrightarrow>
   gdf_inv destination cnt fallbacks' attempts' \<and>
   (int (length fallbacks') = cnt \<or> attempts' = cnt * 10)"
proof (induction destination cnt fallbacks attempts g rule: gdf_loop.induct)
  case (1 destination cnt fallbacks attempts g)
  show ?case
  proof (cases "int (length fallbacks) < cnt \<and> attempts < cnt * 10")
    case False
    with "1.prems" show ?thesis
      by (auto simp: gdf_loop.simps [of destination cnt fallbacks attempts g] gdf_inv_def)
  next
    case True
    obtain tpl g1 where c1: "random_choice templates g = (tpl, g1)"
      by (cases "random_choice templates g")
    obtain below g2 where c2: "random_below_06 g1 = (below, g2)"
      by (cases "random_below_06 g1")
    obtain pfx g3 where c3:
      "(if below then (case random_choice adjectives g2 of (adj, g3) \<Rightarrow> (adj @ '' '', g3))
        else ('''', g2)) = (pfx, g3)"
      by (cases "(if below then (case random_choice adjectives g2 of (adj, g3) \<Rightarrow> (adj @ '' '', g3))
        else ('''', g2))")
    have tpl: "tpl \<in> set templates"
      using random_choice_templates [of g] c1 by simp
    let ?item = "str_format tpl (pfx @ destination)"
    have unfold: "gdf_loop destination cnt fallbacks attempts g =
        gdf_loop destination cnt (set_add ?item fallbacks) (attempts + 1) g3"
      using True c1 c2 c3 by (simp add: gdf_loop.simps [of destination cnt fallbacks attempts g])
    have inv: "gdf_inv destination cnt (set_add ?item fallbacks) (attempts + 1)"
      using gdf_inv_step [OF "1.prems"(1) _ _ tpl] True by simp
    show ?thesis
      using "1.IH" [OF True c1 [symmetric] c2 [symmetric] c3 [symmetric] inv] "1.prems"(2) unfold
      by simp
  qed
qed


lemma gdf_loop_continue:
  "int (length fallbacks) < cnt \<Longrightarrow> attempts < cnt * 10 \<Longrightarrow>
   gdf_loop destination cnt fallbacks attempts g =
     (case random_choice templates g of (tpl, g1) \<Rightarrow>
      case random_below_06 g1 of (below, g2) \<Rightarrow>
      case (if below
            then (case random_choice adjectives g2 of (adj, g3) \<Rightarrow> (adj @ '' '', g3))
            else ('''', g2)) of (pfx, g3) \<Rightarrow>
        gdf_loop destination cnt
          (set_add (str_format tpl (pfx @ destination)) fallbacks) (attempts + 1) g3)"
  by (subst gdf_loop.simps) simp

lemma gdf_loop_exit:
  "\<not> (int (length fallbacks) < cnt \<and> attempts < cnt * 10) \<Longrightarrow>
   gdf_loop destination cnt fallbacks attempts g = (fallbacks, attempts, g)"
  by (subst gdf_loop.simps) auto

lemma gdf_loop_result:
  assumes "0 \<le> N"
  shows "gdf_inv destination N (fst (gdf_loop destination N [] 0 g))
           (fst (snd (gdf_loop destination N [] 0 g))) \<and>
         (int (length (fst (gdf_loop destination N [] 0 g))) = N \<or>
          fst (snd (gdf_loop destination N [] 0 g)) = N * 10)"
proof -
  obtain fallbacks attempts g' where r: "gdf_loop destination N [] 0 g = (fallbacks, attempts, g')"
    by (cases "gdf_loop destination N [] 0 g")
  have "gdf_inv destination N [] 0"
    using assms by (simp add: gdf_inv_def)
  from gdf_loop_inv [OF this r] show ?thesis
    by (simp add: r)
qed

text \<open>
  C4. For a count \<open>N \<ge> 0\<close> the loop of \<open>generate_dynamic_fallback\<close> makes at
  most \<open>10 * N\<close> attempts (the function is total, so it always returns); the list
  returned has at most \<open>N\<close> elements, no element twice, and each element contains the
  destination as a substring; it has fewer than \<open>N\<close> elements only when all \<open>10 * N\<close>
  attempts were used. For \<open>get_fallback_list\<close>, which asks for 50, the list has at most 50
  distinct strings, all containing the destination.
\<close>

theorem generate_dynamic_fallback_bounded:
  assumes "0 \<le> N"
  shows "fst (snd (gdf_loop destination N [] 0 g)) \<le> 10 * N \<and>
    int (length (fst (generate_dynamic_fallback h destination N g))) \<le> N \<and>
    distinct (fst (generate_dynamic_fallback h destination N g)) \<and>
    (\<forall>s \<in> set (fst (generate_dynamic_fallback h destination N g)). sublist destination s) \<and>
    (int (length (fst (generate_dynamic_fallback h destination N g))) < N \<longrightarrow>
       fst (snd (gdf_loop destination N [] 0 g)) = 10 * N) \<and>
    length (fst (get_fallback_list h destination g)) \<le> 50 \<and>
    distinct (fst (get_fallback_list h destination g)) \<and>
    (\<forall>s \<in> set (fst (get_fallback_list h destination g)). sublist destination s)"
proof -
  have res: "fst (generate_dynamic_fallback h destination M g') =
      list_of_set h (fst (gdf_loop destination M [] 0 g'))" for M g'
    by (simp add: generate_dynamic_fallback_def split: prod.splits)
  have gen: "fst (snd (gdf_loop destination M [] 0 g)) \<le> 10 * M \<and>
    int (length (fst (generate_dynamic_fallback h destination M g))) \<le> M \<and>
    distinct (fst (generate_dynamic_fallback h destination M g)) \<and>
    (\<forall>s \<in> set (fst (generate_dynamic_fallback h destination M g)). sublist destination s) \<and>
    (int (length (fst (generate_dynamic_fallback h destination M g))) < M \<longrightarrow>
       fst (snd (gdf_loop destination M [] 0 g)) = 10 * M)" if "0 \<le> M" for M
    using gdf_loop_result [OF that, of destination g]
    by (auto simp: res list_of_set_def gdf_inv_def)
  from gen [of 50] have "length (fst (get_fallback_list h destination g)) \<le> 50 \<and>
    distinct (fst (get_fallback_list h destination g)) \<and>
    (\<forall>s \<in> set (fst (get_fallback_list h destination g)). sublist destination s)"
    by (simp add: get_fallback_list_def)
  with gen [OF assms] show ?thesis
    by blast
qed

theorem generate_dynamic_fallback_witness:
  "(0::int) \<le> 2 \<and>
   fst (generate_dynamic_fallback length ''Goa'' 2 (sconst 0)) =
     [''Explore local art galleries in amazing Goa''] \<and>
   fst (snd (gdf_loop ''Goa'' 2 [] 0 (sconst 0))) = 10 * 2 \<and>
   sublist ''Goa'' ''Explore local art galleries in amazing Goa''"
proof -
  have loop: "gdf_loop ''Goa'' 2 [] 0 (sconst 0) =
      ([''Explore local art galleries in amazing Goa''], 20, sconst 0)"
    by (simp add: gdf_loop_continue gdf_loop_exit random_choice_def randbelow_def
        random_below_06_def templates_def adjectives_def set_add_def)
  have res: "fst (generate_dynamic_fallback length ''Goa'' 2 (sconst 0)) =
      [''Explore local art galleries in amazing Goa'']"
    by (simp add: generate_dynamic_fallback_def loop list_of_set_def)
  show ?thesis
    using generate_dynamic_fallback_bounded [of 2 "''Goa''" "sconst 0" length]
    by (simp add: res loop)
qed

subsection \<open>Pool builder\<close>

lemma set_first_occurrences: "set (first_occurrences xs) = set xs"
  by (induction xs rule: first_occurrences.induct) auto

lemma distinct_first_occurrences: "distinct (first_occurrences xs)"
  by (induction xs rule: first_occurrences.induct) (auto simp: set_first_occurrences)

lemma add_unique_first_occurrences:
  "add_unique acc tasks = acc @ first_occurrences (filter (\<lambda>t. t \<notin> set acc) tasks)"
proof (induction tasks arbitrary: acc)
  case Nil
  show ?case by simp
next
  case (Cons t ts)
  have "removeAll t (filter (\<lambda>x. x \<notin> set acc) ts) = filter (\<lambda>x. x \<noteq> t \<and> x \<notin> set acc) ts"
    by (induction ts) auto
  then show ?case
    by (simp add: Cons.IH)
qed

lemma add_unique_Nil: "add_unique [] tasks = first_occurrences tasks"
  by (simp add: add_unique_first_occurrences)

lemma fair_draws_sdrop: "fair_draws n g \<Longrightarrow> fair_draws n (sdrop j g)"
  unfolding fair_draws_def
proof (intro allI impI)
  fix i k
  assume fair: "\<forall>i<n. \<forall>k. \<exists>m\<ge>k. g !! m mod n = i" and "i < n"
  then obtain m where "m \<ge> j + k" "g !! m mod n = i"
    by blast
  then have "m - j \<ge> k" "sdrop j g !! (m - j) mod n = i"
    by (simp_all add: sdrop_snth)
  then show "\<exists>m\<ge>k. sdrop j g !! m mod n = i"
    by blast
qed

lemma top_up_done:
  "\<not> int (length u) < required \<Longrightarrow> top_up fb required u g = Some (Inr (u, g))"
  by (subst top_up.simps) simp

lemma top_up_empty:
  "int (length u) < required \<Longrightarrow> top_up [] required u g = Some (Inl ValueError)"
  by (subst top_up.simps) (simp add: randrange_def)

lemma top_up_step:
  "int (length u) < required \<Longrightarrow> fb \<noteq> [] \<Longrightarrow>
   top_up fb required u g =
     (if fb ! (shd g mod length fb) \<notin> set u
      then top_up fb required (u @ [fb ! (shd g mod length fb)]) (stl g)
      else top_up fb required u (stl g))"
  by (subst top_up.simps) (simp add: randrange_def randbelow_def)

lemma top_up_skip:
  "int (length u) < required \<Longrightarrow> fb \<noteq> [] \<Longrightarrow>
   \<forall>j<k. fb ! (g !! j mod length fb) \<in> set u \<Longrightarrow>
   top_up fb required u g = top_up fb required u (sdrop k g)"
proof (induction k arbitrary: g)
  case 0
  show ?case by simp
next
  case (Suc k)
  from Suc.prems(3) have "fb ! (shd g mod length fb) \<in> set u"
    by (metis snth.simps(1) zero_less_Suc)
  then have "top_up fb required u g = top_up fb required u (stl g)"
    using Suc.prems(1,2) by (simp add: top_up_step)
  moreover have "\<forall>j<k. fb ! (stl g !! j mod length fb) \<in> set u"
    using Suc.prems(3) by (metis Suc_less_eq snth.simps(2))
  ultimately show ?case
    using Suc.IH [OF Suc.prems(1,2), of "stl g"] by simp
qed

lemma top_up_terminates:
  assumes "fair_draws (length fb) g" and "distinct u"
    and "required \<le> int (card (set u \<union> set fb))"
  shows "\<exists>ext g'. top_up fb required u g = Some (Inr (u @ ext, g')) \<and>
           distinct (u @ ext) \<and> set ext \<subseteq> set fb \<and>
           int (length (u @ ext)) = max required (int (length u))"
  using assms
proof (induction "nat (required - int (length u))" arbitrary: u g)
  case 0
  then have "top_up fb required u g = Some (Inr (u @ [], g))"
    by (simp add: top_up_done)
  with 0 show ?case
    by (intro exI [of _ "[]"] exI [of _ g]) auto
next
  case (Suc d)
  let ?n = "length fb"
  from Suc.hyps(2) have short: "int (length u) < required"
    by linarith
  have "card (set u) = length u"
    using Suc.prems(2) by (simp add: distinct_card)
  with short Suc.prems(3) have "card (set u) < card (set u \<union> set fb)"
    by linarith
  then have "set u \<noteq> set u \<union> set fb"
    by auto
  then obtain x where x: "x \<in> set fb" "x \<notin> set u"
    by auto
  then obtain i where i: "i < ?n" "fb ! i = x"
    by (auto simp: in_set_conv_nth)
  then have ne: "fb \<noteq> []"
    by auto
  from Suc.prems(1) i(1) obtain m where "g !! m mod ?n = i"
    unfolding fair_draws_def by blast
  with i x have ex: "\<exists>m. fb ! (g !! m mod ?n) \<notin> set u"
    by auto
  define k where "k = (LEAST m. fb ! (g !! m mod ?n) \<notin> set u)"
  have fresh: "fb ! (g !! k mod ?n) \<notin> set u"
    unfolding k_def using ex by (rule LeastI_ex)
  have stale: "\<forall>j<k. fb ! (g !! j mod ?n) \<in> set u"
    unfolding k_def using not_less_Least by blast
  let ?c = "fb ! (g !! k mod ?n)"
  have c_in: "?c \<in> set fb"
    using ne by simp
  have "top_up fb required u g = top_up fb required u (sdrop k g)"
    using top_up_skip [OF short ne stale] .
  also have "\<dots> = top_up fb required (u @ [?c]) (sdrop (Suc k) g)"
    using fresh short ne by (simp add: top_up_step)
  finally have unfold: "top_up fb required u g = top_up fb required (u @ [?c]) (sdrop (Suc k) g)" .
  have "d = nat (required - int (length (u @ [?c])))"
    using Suc.hyps(2) by simp
  moreover have "fair_draws ?n (sdrop (Suc k) g)"
    using Suc.prems(1) by (rule fair_draws_sdrop)
  moreover have "distinct (u @ [?c])"
    using Suc.prems(2) fresh by simp
  moreover have "set (u @ [?c]) \<union> set fb = set u \<union> set fb"
    using c_in by auto
  then have "required \<le> int (card (set (u @ [?c]) \<union> set fb))"
    using Suc.prems(3) by simp
  ultimately obtain ext g' where r:
    "top_up fb required (u @ [?c]) (sdrop (Suc k) g) = Some (Inr ((u @ [?c]) @ ext, g'))"
    "distinct ((u @ [?c]) @ ext)" "set ext \<subseteq> set fb"
    "int (length ((u @ [?c]) @ ext)) = max required (int (length (u @ [?c])))"
    using Suc.hyps(1) by blast
  show ?case
  proof (intro exI [of _ "?c # ext"] exI [of _ g'] conjI)
    show "top_up fb required u g = Some (Inr (u @ ?c # ext, g'))"
      using unfold r(1) by simp
    show "distinct (u @ ?c # ext)"
      using r(2) by simp
    show "set (?c # ext) \<subseteq> set fb"
      using r(3) c_in by simp
    show "int (length (u @ ?c # ext)) = max required (int (length u))"
      using r(4) short by simp
  qed
qed

lemma top_up_partial:
  assumes "top_up fb required u g = Some y"
  shows "case y of
           Inl e \<Rightarrow> fb = [] \<and> e = ValueError
         | Inr (pool, g') \<Rightarrow>
             required \<le> int (length pool) \<and> set pool \<subseteq> set u \<union> set fb \<and>
             (distinct u \<longrightarrow> distinct pool)"
  using assms
proof (induction fb required u g y rule: top_up.raw_induct [rotated, consumes 1, case_names step])
  case (step top_up' fb required u g y)
  show ?case
  proof (cases "int (length u) < required")
    case False
    with "step.hyps" show ?thesis
      by auto
  next
    case True
    note short = this
    show ?thesis
    proof (cases "fb = []")
      case True
      with short "step.hyps" show ?thesis
        by (auto simp: randrange_def)
    next
      case False
      let ?c = "fb ! (shd g mod length fb)"
      from False have c_in: "?c \<in> set fb"
        by simp
      show ?thesis
      proof (cases "?c \<in> set u")
        case True
        with short False "step.hyps" have "top_up' fb required u (stl g) = Some y"
          by (simp add: randrange_def randbelow_def)
        from "step.IH" [OF this] show ?thesis .
      next
        case False
        with short \<open>fb \<noteq> []\<close> "step.hyps" have "top_up' fb required (u @ [?c]) (stl g) = Some y"
          by (simp add: randrange_def randbelow_def)
        from "step.IH" [OF this] False c_in show ?thesis
          by (auto split: sum.splits prod.splits)
      qed
    qed
  qed
qed


lemma top_up_diverges:
  assumes "fb \<noteq> []" and "distinct u" and "int (card (set u \<union> set fb)) < required"
  shows "top_up fb required u g = None"
proof (rule ccontr)
  assume "top_up fb required u g \<noteq> None"
  then obtain y where y: "top_up fb required u g = Some y"
    by blast
  from top_up_partial [OF y] assms(1,2) obtain pool g' where
    pool: "required \<le> int (length pool)" "set pool \<subseteq> set u \<union> set fb" "distinct pool"
    by (cases y) auto
  have "card (set pool) \<le> card (set u \<union> set fb)"
    using pool(2) by (intro card_mono) auto
  moreover have "card (set pool) = length pool"
    using pool(3) by (simp add: distinct_card)
  ultimately show False
    using pool(1) assms(3) by linarith
qed

lemma fair_draws_nats: "fair_draws n nats"
  unfolding fair_draws_def
proof (intro allI impI)
  fix i k
  assume "i < n"
  then have "i + n * k \<ge> k"
    by (cases n) simp_all
  moreover have "nats !! (i + n * k) mod n = i"
    using \<open>i < n\<close> by simp
  ultimately have "i + n * k \<ge> k" "nats !! (i + n * k) mod n = i"
    by blast+
  then show "\<exists>m\<ge>k. nats !! m mod n = i"
    by blast
qed

text \<open>
  Fairness cannot be dropped: two fallback items are enough for a pool of two, but a
  generator that always delivers 0 draws the first of them for ever.
\<close>

lemma top_up_unfair_example:
  "create_global_pool [] [''a'', ''b''] destination 2 (sconst 0) = None"
proof (rule ccontr)
  assume "create_global_pool [] [''a'', ''b''] destination 2 (sconst 0) \<noteq> None"
  then obtain y where y: "top_up [''a'', ''b''] 2 [] (sconst 0) = Some y"
    by (auto simp: create_global_pool_def)
  have "top_up fb required u g = Some y \<Longrightarrow>
      fb = [''a'', ''b''] \<Longrightarrow> required = 2 \<Longrightarrow> g = sconst 0 \<Longrightarrow> set u \<subseteq> {''a''} \<Longrightarrow>
      distinct u \<Longrightarrow> False" for fb required u g
  proof (induction fb required u g y rule: top_up.raw_induct [rotated, consumes 1, case_names step])
    case (step top_up' fb required u g y)
    have "card (set u) \<le> card {''a''}"
      using "step.prems"(4) by (intro card_mono) auto
    then have short: "int (length u) < required"
      using "step.prems"(2,5) by (simp add: distinct_card)
    show ?case
    proof (cases "''a'' \<in> set u")
      case True
      with short "step.hyps" "step.prems"(1,3) have "top_up' fb required u g = Some y"
        by (simp add: randrange_def randbelow_def Let_def)
      from "step.IH" [OF this "step.prems"] show ?thesis .
    next
      case False
      with short "step.hyps" "step.prems"(1,3) have "top_up' fb required (u @ [''a'']) g = Some y"
        by (simp add: randrange_def randbelow_def Let_def)
      from "step.IH" [OF this "step.prems"(1,2,3)] "step.prems"(4,5) False show ?thesis
        by simp
    qed
  qed
  from this [OF y] show False
    by simp
qed


text \<open>
  C1, as stated, fails: the pool is never cut down to the required size. With two distinct
  candidates and a required size of 1 the pool returned has two elements.
\<close>

theorem create_global_pool_length_counterexample:
  "\<exists>pool g'. create_global_pool [''x'', ''y''] [''z'', ''w''] ''Goa'' 1 nats = Some (Inr (pool, g')) \<and>
     int (length pool) \<noteq> 1"
  by (simp add: create_global_pool_def top_up_done)

text \<open>
  C1, amended. Let the candidates and the fallback list together hold at least
  \<open>required\<close> distinct items, and let the draws be fair. Then \<open>create_global_pool\<close>
  returns a list without duplicates that begins with the candidates, deduplicated with
  the first occurrence kept and in their original order, and continues with items of the
  fallback list only. Its length is the larger of \<open>required\<close> and the number of distinct
  candidates: exactly \<open>required\<close> when there are at most that many distinct candidates.
\<close>

theorem create_global_pool_result:
  assumes "fair_draws (length fallback_list) g"
    and "required \<le> int (card (set tasks \<union> set fallback_list))"
  shows "\<exists>ext g'.
    create_global_pool tasks fallback_list destination required g =
      Some (Inr (first_occurrences tasks @ ext, g')) \<and>
    distinct (first_occurrences tasks @ ext) \<and>
    set ext \<subseteq> set fallback_list \<and>
    int (length (first_occurrences tasks @ ext)) =
      max required (int (length (first_occurrences tasks)))"
  using top_up_terminates [of fallback_list g "first_occurrences tasks" required] assms
  by (simp add: create_global_pool_def add_unique_Nil distinct_first_occurrences
      set_first_occurrences)

theorem create_global_pool_result_witness:
  "fair_draws (length [''x'', ''y'', ''b'']) nats \<and>
   (4::int) \<le> int (card (set [''a'', ''b'', ''a''] \<union> set [''x'', ''y'', ''b''])) \<and>
   (\<exists>ext g'. create_global_pool [''a'', ''b'', ''a''] [''x'', ''y'', ''b''] ''Goa'' 4 nats =
      Some (Inr ([''a'', ''b''] @ ext, g')) \<and> length ext = 2 \<and> set ext \<subseteq> {''x'', ''y'', ''b''})"
proof -
  have fair: "fair_draws (length [''x'', ''y'', ''b'']) nats"
    by (rule fair_draws_nats)
  have enough: "(4::int) \<le> int (card (set [''a'', ''b'', ''a''] \<union> set [''x'', ''y'', ''b'']))"
    by (simp add: card_insert_if)
  from create_global_pool_result [OF fair enough, of "''Goa''"] fair enough show ?thesis
    by auto
qed

text \<open>
  C2, as stated, fails for an empty fallback list: the union has fewer elements than
  required, yet the loop does not run for ever, since \<open>randrange(0)\<close> raises
  \<open>ValueError\<close> at the first draw.
\<close>

theorem create_global_pool_empty_fallback_counterexample:
  "int (card (set ([] :: string list) \<union> set [])) < 1 \<and>
   create_global_pool ([] :: string list) [] ''Goa'' 1 nats \<noteq> None"
  by (simp add: create_global_pool_def top_up_empty)

text \<open>
  C2, amended. If the fallback list is not empty and the candidates and the fallback list
  together hold fewer than \<open>required\<close> distinct items, \<open>create_global_pool\<close> never
  returns, whatever the draws. If the fallback list is empty and there are fewer than
  \<open>required\<close> distinct candidates, it raises \<open>ValueError\<close>. If together they hold at
  least \<open>required\<close> distinct items and the draws are fair, it returns a pool whose size
  is the larger of \<open>required\<close> and the number of distinct candidates.
\<close>

theorem create_global_pool_termination:
  "(fallback_list \<noteq> [] \<and> int (card (set tasks \<union> set fallback_list)) < required \<longrightarrow>
      create_global_pool tasks fallback_list destination required g = None) \<and>
   (fallback_list = [] \<and> int (card (set tasks)) < required \<longrightarrow>
      create_global_pool tasks fallback_list destination required g = Some (Inl ValueError)) \<and>
   (required \<le> int (card (set tasks \<union> set fallback_list)) \<and>
    fair_draws (length fallback_list) g \<longrightarrow>
      (\<exists>pool g'. create_global_pool tasks fallback_list destination required g =
          Some (Inr (pool, g')) \<and>
        int (length pool) = max required (int (card (set tasks)))))"
proof (intro conjI impI)
  assume "fallback_list \<noteq> [] \<and> int (card (set tasks \<union> set fallback_list)) < required"
  then show "create_global_pool tasks fallback_list destination required g = None"
    using top_up_diverges [of fallback_list "first_occurrences tasks" required g]
    by (simp add: create_global_pool_def add_unique_Nil distinct_first_occurrences
        set_first_occurrences)
next
  have "card (set tasks) = length (first_occurrences tasks)"
    using distinct_card [OF distinct_first_occurrences, of tasks]
    by (simp add: set_first_occurrences)
  moreover assume "fallback_list = [] \<and> int (card (set tasks)) < required"
  ultimately show
    "create_global_pool tasks fallback_list destination required g = Some (Inl ValueError)"
    by (simp add: create_global_pool_def add_unique_Nil top_up_empty)
next
  have len: "card (set tasks) = length (first_occurrences tasks)"
    using distinct_card [OF distinct_first_occurrences, of tasks]
    by (simp add: set_first_occurrences)
  assume "required \<le> int (card (set tasks \<union> set fallback_list)) \<and>
    fair_draws (length fallback_list) g"
  then show "\<exists>pool g'. create_global_pool tasks fallback_list destination required g =
          Some (Inr (pool, g')) \<and>
        int (length pool) = max required (int (card (set tasks)))"
    using top_up_terminates [of fallback_list g "first_occurrences tasks" required]
    by (auto simp: create_global_pool_def add_unique_Nil distinct_first_occurrences
        set_first_occurrences len)
qed

theorem create_global_pool_termination_witness:
  "create_global_pool [''a''] [''a'', ''b''] ''Goa'' 3 nats = None \<and>
   create_global_pool [''a''] [] ''Goa'' 3 nats = Some (Inl ValueError) \<and>
   (\<exists>pool g'. create_global_pool [''a''] [''a'', ''b''] ''Goa'' 2 nats = Some (Inr (pool, g')) \<and>
      int (length pool) = 2)"
  using create_global_pool_termination [of "[''a'', ''b'']" "[''a'']" 3 "''Goa''" nats]
    create_global_pool_termination [of "[]" "[''a'']" 3 "''Goa''" nats]
    create_global_pool_termination [of "[''a'', ''b'']" "[''a'']" 2 "''Goa''" nats]
  by (simp add: card_insert_if fair_draws_nats)

subsection \<open>Day sampler\<close>

lemma mset_take_swap_out:
  assumes "j < n" and "n \<le> length pool"
  shows "add_mset (pool ! j) (mset (take (n - 1) (pool[j := pool ! (n - 1)]))) = mset (take n pool)"
proof -
  from assms obtain m where n: "n = Suc m"
    by (cases n) auto
  have split: "take n pool = take m pool @ [pool ! m]"
    using assms(2) n by (simp add: take_Suc_conv_app_nth)
  show ?thesis
  proof (cases "j = m")
    case True
    then show ?thesis
      using split n by simp
  next
    case False
    with assms(1) n have jm: "j < m"
      by simp
    then have jl: "j < length (take m pool)"
      using assms(2) n by simp
    have "take m (pool[j := pool ! m]) = (take m pool)[j := pool ! m]"
      using jm by (simp add: take_update_swap)
    then have "mset (take m (pool[j := pool ! m])) =
        add_mset (pool ! m) (mset (take m pool) - {#take m pool ! j#})"
      using jl by (simp add: mset_update)
    moreover have "take m pool ! j = pool ! j"
      using jm by simp
    moreover have "pool ! j \<in># mset (take m pool)"
      using jl \<open>take m pool ! j = pool ! j\<close> by (metis nth_mem set_mset_mset)
    ultimately show ?thesis
      using split n by simp
  qed
qed

lemma sample_loop_props:
  "k \<le> n \<Longrightarrow> n \<le> length pool \<Longrightarrow>
   length (fst (sample_loop pool n k g)) = k \<and>
   mset (fst (sample_loop pool n k g)) \<subseteq># mset (take n pool)"
proof (induction k arbitrary: pool n g)
  case 0
  show ?case by simp
next
  case (Suc k)
  let ?j = "shd g mod n"
  let ?pool' = "pool[?j := pool ! (n - 1)]"
  from Suc.prems have j: "?j < n"
    by simp
  have "k \<le> n - 1" "n - 1 \<le> length ?pool'"
    using Suc.prems by simp_all
  from Suc.IH [OF this, of "stl g"] have
    ih: "length (fst (sample_loop ?pool' (n - 1) k (stl g))) = k"
      "mset (fst (sample_loop ?pool' (n - 1) k (stl g))) \<subseteq># mset (take (n - 1) ?pool')"
    by simp_all
  have res: "fst (sample_loop pool n (Suc k) g) =
      pool ! ?j # fst (sample_loop ?pool' (n - 1) k (stl g))"
    by (simp add: randbelow_def split: prod.splits)
  have "mset (pool ! ?j # fst (sample_loop ?pool' (n - 1) k (stl g))) \<subseteq>#
      add_mset (pool ! ?j) (mset (take (n - 1) ?pool'))"
    using ih(2) by simp
  then have "mset (pool ! ?j # fst (sample_loop ?pool' (n - 1) k (stl g))) \<subseteq>#
      mset (take n pool)"
    by (simp only: mset_take_swap_out [OF j Suc.prems(2)])
  moreover have "length (pool ! ?j # fst (sample_loop ?pool' (n - 1) k (stl g))) = Suc k"
    using ih(1) by simp
  ultimately show ?case
    unfolding res by blast
qed

lemma sample_loop_distinct:
  assumes "k \<le> length pool" and "distinct pool"
  shows "distinct (fst (sample_loop pool (length pool) k g))"
    and "set (fst (sample_loop pool (length pool) k g)) \<subseteq> set pool"
proof -
  from sample_loop_props [OF assms(1) order_refl, of g]
  have sub: "mset (fst (sample_loop pool (length pool) k g)) \<subseteq># mset pool"
    by simp
  let ?res = "fst (sample_loop pool (length pool) k g)"
  have "count (mset ?res) x = (if x \<in> set ?res then 1 else 0)" for x
  proof -
    have "count (mset ?res) x \<le> count (mset pool) x"
      using sub by (rule mset_subset_eq_count)
    also have "\<dots> \<le> 1"
      using assms(2) by (simp add: distinct_count_atmost_1)
    finally have le: "count (mset ?res) x \<le> 1" .
    show ?thesis
    proof (cases "x \<in> set ?res")
      case True
      then have "0 < count (mset ?res) x"
        by simp
      with le have "count (mset ?res) x = 1"
        by linarith
      with True show ?thesis
        by (simp only: if_True)
    next
      case False
      then show ?thesis
        by (simp add: count_mset_0_iff)
    qed
  qed
  then show "distinct ?res"
    by (simp only: distinct_count_atmost_1 [of ?res] simp_thms)
  from sub show "set (fst (sample_loop pool (length pool) k g)) \<subseteq> set pool"
    by (metis set_mset_mono set_mset_mset)
qed

lemma concat_chunks:
  "concat (map (\<lambda>i. take m (drop (i * m) xs)) [0..<k]) = take (k * m) xs"
proof (induction k)
  case 0
  show ?case by simp
next
  case (Suc k)
  have "take (k * m) xs @ take m (drop (k * m) xs) = take (k * m + m) xs"
    by (simp add: take_add)
  with Suc show ?case
    by (simp add: add.commute)
qed

lemma py_slice_chunk:
  assumes "(i + 1) * m \<le> length xs"
  shows "py_slice xs (int i * int m) ((int i + 1) * int m) = take m (drop (i * m) xs)"
proof -
  have eq: "(int i + 1) * int m = int (i * m) + int m" "int i * int m = int (i * m)"
    by (simp_all add: distrib_right)
  have "i * m + m \<le> length xs"
    using assms by (simp add: distrib_right)
  then have "int (i * m + m) \<le> int (length xs)"
    by (rule of_nat_mono)
  then have bounds: "int (i * m) + int m \<le> int (length xs)"
    by (simp only: of_nat_add)
  then have "py_slice xs (int (i * m)) (int (i * m) + int m) = take m (drop (i * m) xs)"
    by (simp add: py_slice_def Let_def min_def del: of_nat_mult of_nat_add)
  then show ?thesis
    by (simp only: eq)
qed


lemma make_itinerary_fields:
  "map Activities (make_itinerary groups) = groups"
  "map Day (make_itinerary groups) = map (\<lambda>i. int i + 1) [0..<length groups]"
proof -
  have "map Activities (make_itinerary groups) = map snd (enumerate 0 groups)"
    unfolding make_itinerary_def map_map by (rule map_cong) auto
  then show "map Activities (make_itinerary groups) = groups"
    by simp
  have "map Day (make_itinerary groups) = map ((\<lambda>i. int i + 1) \<circ> fst) (enumerate 0 groups)"
    unfolding make_itinerary_def map_map by (rule map_cong) auto
  also have "\<dots> = map (\<lambda>i. int i + 1) (map fst (enumerate 0 groups))"
    by (simp only: map_map)
  also have "\<dots> = map (\<lambda>i. int i + 1) [0..<length groups]"
    by simp
  finally show "map Day (make_itinerary groups) = map (\<lambda>i. int i + 1) [0..<length groups]" .
qed

lemma groups_of_sample:
  assumes "length sampled = d * 3"
  shows "map (\<lambda>i. py_slice sampled (i * 3) ((i + 1) * 3)) (py_range (int d)) =
         map (\<lambda>i. take 3 (drop (i * 3) sampled)) [0..<d]"
proof -
  have "py_slice sampled (int i * 3) ((int i + 1) * 3) = take 3 (drop (i * 3) sampled)"
    if "i < d" for i
  proof -
    from that assms have "(i + 1) * 3 \<le> length sampled"
      by simp
    from py_slice_chunk [OF this] show ?thesis
      by simp
  qed
  then show ?thesis
    by (simp add: py_range_def)
qed

lemma generate_groups_spec:
  assumes "1 \<le> D" and "distinct global_pool" and "3 * D \<le> int (length global_pool)"
  shows "\<exists>groups g'.
    generate_groups_from_global_pool global_pool D 3 g = Inr (groups, g') \<and>
    int (length groups) = D \<and>
    (\<forall>grp \<in> set groups. length grp = 3) \<and>
    random_sample global_pool (D * 3) g = Inr (concat groups, g') \<and>
    (\<forall>i < length groups. groups ! i = take 3 (drop (i * 3) (concat groups))) \<and>
    distinct (concat groups) \<and>
    set (concat groups) \<subseteq> set global_pool \<and>
    int (card (set (concat groups))) = 3 * D \<and>
    map Activities (make_itinerary groups) = groups \<and>
    map Day (make_itinerary groups) = map (\<lambda>i. int i + 1) [0..<length groups]"
proof -
  define d where "d = nat D"
  define sampled where "sampled = fst (sample_loop global_pool (length global_pool) (d * 3) g)"
  define g' where "g' = snd (sample_loop global_pool (length global_pool) (d * 3) g)"
  define groups where "groups = map (\<lambda>i. take 3 (drop (i * 3) sampled)) [0..<d]"
  have D: "D = int d"
    using assms(1) by (simp add: d_def)
  have k: "d * 3 \<le> length global_pool"
    using assms(3) D by simp
  have len: "length sampled = d * 3"
    using sample_loop_props [OF k order_refl, of g] by (simp add: sampled_def)
  have dist: "distinct sampled" and sub: "set sampled \<subseteq> set global_pool"
    using sample_loop_distinct [OF k assms(2), of g] by (simp_all add: sampled_def)
  have sample: "random_sample global_pool (int d * 3) g = Inr (sampled, g')"
    using k by (simp add: random_sample_def sampled_def g'_def nat_mult_distrib)
  have gen: "generate_groups_from_global_pool global_pool (int d) 3 g = Inr (groups, g')"
    using groups_of_sample [OF len]
    by (simp add: generate_groups_from_global_pool_def sample groups_def)
  have cat: "concat groups = sampled"
    using concat_chunks [of 3 sampled d] len by (simp add: groups_def)
  have three: "\<forall>grp \<in> set groups. length grp = 3"
    using len by (auto simp: groups_def)
  have nth: "\<forall>i < length groups. groups ! i = take 3 (drop (i * 3) (concat groups))"
    by (simp add: cat) (simp add: groups_def)
  have card: "int (card (set (concat groups))) = 3 * int d"
    using dist len by (simp add: cat distinct_card)
  have "length groups = d"
    by (simp add: groups_def)
  then show ?thesis
    unfolding D
    using gen three sample nth dist sub card make_itinerary_fields [of groups]
    by (intro exI [of _ groups] exI [of _ g']) (simp add: cat)
qed



subsection \<open>Annotations\<close>





subsection \<open>The handler for a preset destination\<close>

lemma first_occurrences_distinct: "distinct xs \<Longrightarrow> first_occurrences xs = xs"
  by (induction xs) (simp_all add: removeAll_id)

lemma distinct_py_set_aux: "distinct acc \<Longrightarrow> distinct (foldl (\<lambda>s x. set_add x s) acc xs)"
  by (induction xs arbitrary: acc) (simp_all add: set_add_def)

lemma set_py_set_aux: "set (foldl (\<lambda>s x. set_add x s) acc xs) = set acc \<union> set xs"
  by (induction xs arbitrary: acc) (auto simp: set_add_def)

lemma py_set_props: "distinct (py_set xs)" "set (py_set xs) = set xs"
  by (simp_all add: py_set_def distinct_py_set_aux set_py_set_aux)

lemma list_of_set_props:
  "distinct (list_of_set h (py_set xs))" "set (list_of_set h (py_set xs)) = set xs"
  "length (list_of_set h (py_set xs)) = card (set xs)"
proof -
  show "distinct (list_of_set h (py_set xs))" "set (list_of_set h (py_set xs)) = set xs"
    by (simp_all add: list_of_set_def py_set_props)
  have "length (py_set xs) = card (set (py_set xs))"
    using py_set_props(1) [of xs] by (simp add: distinct_card)
  then show "length (list_of_set h (py_set xs)) = card (set xs)"
    by (simp add: list_of_set_def py_set_props)
qed

lemma create_global_pool_enough:
  assumes "distinct tasks" and "required \<le> int (length tasks)"
  shows "create_global_pool tasks fallback_list destination required g = Some (Inr (tasks, g))"
  using assms
  by (simp add: create_global_pool_def add_unique_Nil first_occurrences_distinct top_up_done)

lemma goa_preset:
  "\<exists>base_points. map_of preset_itineraries ''Goa'' = Some base_points \<and>
     card (set (base_points @ extra_tasks ''Goa'')) = 16"
  by (simp add: preset_itineraries_def extra_tasks_def card_insert_if)


lemma build_itinerary_enough:
  assumes "distinct tasks" and "1 \<le> duration" and "duration * 3 \<le> int (length tasks)"
  shows "\<exists>groups g'.
    build_itinerary h tasks destination duration g = Some (Inr (make_itinerary groups, g')) \<and>
    int (length groups) = duration \<and> (\<forall>grp \<in> set groups. length grp = 3) \<and>
    set (concat groups) \<subseteq> set tasks"
proof -
  obtain fallback_list g1 where fb: "get_fallback_list h destination g = (fallback_list, g1)"
    by (cases "get_fallback_list h destination g")
  have pool: "create_global_pool tasks (map PStr fallback_list) destination (duration * 3) g1 =
      Some (Inr (tasks, g1))"
    using assms(1,3) by (rule create_global_pool_enough)
  from assms(3) have "3 * duration \<le> int (length tasks)"
    by simp
  from generate_groups_spec [OF assms(2,1) this, of g1] obtain groups g3 where
    groups: "generate_groups_from_global_pool tasks duration 3 g1 = Inr (groups, g3)"
      "int (length groups) = duration" "\<forall>grp \<in> set groups. length grp = 3"
      "set (concat groups) \<subseteq> set tasks"
    by blast
  have "build_itinerary h tasks destination duration g = Some (Inr (make_itinerary groups, g3))"
    by (simp add: build_itinerary_def fb pool groups(1))
  with groups(2-4) show ?thesis
    by blast
qed

lemma make_itinerary_two:
  "make_itinerary [x, y] = [\<lparr>Day = 1, Activities = x\<rparr>, \<lparr>Day = 2, Activities = y\<rparr>]"
  by (simp add: make_itinerary_def)

text \<open>
  C6. For the destination Goa, a duration of 2 and the starting location Mumbai the
  handler returns, whatever the budget, the network, the generator and the order of the
  sets, an itinerary of two days. Day 1 starts with the departure line, followed by its
  three sampled activities and the budget tip; day 2, the last, has its three sampled
  activities followed by the return line and then the budget tip.
\<close>

theorem generate_itinerary_goa_mumbai:
  "\<exists>day1 day2 sampled1 sampled2 g'.
     generate_itinerary hash_order ''Goa'' ''Mumbai'' budget 2 net g =
       Some (Inr ([day1, day2], net, g')) \<and>
     Day day1 = 1 \<and> Day day2 = 2 \<and>
     length sampled1 = 3 \<and> length sampled2 = 3 \<and>
     Activities day1 =
       PStr ''Take a flight from Mumbai to Goa.'' # sampled1 @
       [PStr (''Budget Tip: '' @ get_budget_tip budget)] \<and>
     Activities day2 =
       sampled2 @ [PStr ''Take a flight from Goa back to Mumbai.'',
                   PStr (''Budget Tip: '' @ get_budget_tip budget)]"
proof -
  obtain base_points where base: "map_of preset_itineraries ''Goa'' = Some base_points"
    and card: "card (set (base_points @ extra_tasks ''Goa'')) = 16"
    using goa_preset by blast
  define tasks where
    "tasks = map PStr (list_of_set hash_order (py_set (base_points @ extra_tasks ''Goa'')))"
  have "distinct tasks"
    by (simp add: tasks_def distinct_map list_of_set_props(1) inj_on_def)
  moreover have "length tasks = 16"
    using card by (simp add: tasks_def list_of_set_props(3))
  then have "(2::int) * 3 \<le> int (length tasks)"
    by simp
  ultimately obtain groups g' where
    build: "build_itinerary hash_order tasks ''Goa'' 2 g = Some (Inr (make_itinerary groups, g'))"
    and len: "int (length groups) = 2" and three: "\<forall>grp \<in> set groups. length grp = 3"
    using build_itinerary_enough [of tasks 2 hash_order "''Goa''" g] by auto
  from len obtain x y where groups: "groups = [x, y]"
    by (cases groups; cases "tl groups"; cases "tl (tl groups)") auto
  with three have xy: "length x = 3" "length y = 3"
    by simp_all
  have guard: "py_strip ''Mumbai'' \<noteq> []" "py_lower ''Mumbai'' \<noteq> py_lower ''Goa''"
    by (simp_all add: py_strip_def is_space_def ascii_whitespace_def py_lower_def lower_case_def)
  have annotate: "annotate_itinerary ''Mumbai'' ''Goa'' budget (make_itinerary [x, y]) =
      Inr [\<lparr>Day = 1, Activities = PStr ''Take a flight from Mumbai to Goa.'' # x @
               [PStr (''Budget Tip: '' @ get_budget_tip budget)]\<rparr>,
           \<lparr>Day = 2, Activities = y @ [PStr ''Take a flight from Goa back to Mumbai.'',
               PStr (''Budget Tip: '' @ get_budget_tip budget)]\<rparr>]"
    unfolding annotate_itinerary_def make_itinerary_two using guard by (simp add: Let_def)
  have "generate_itinerary hash_order ''Goa'' ''Mumbai'' budget 2 net g =
      Some (Inr ([\<lparr>Day = 1, Activities = PStr ''Take a flight from Mumbai to Goa.'' # x @
               [PStr (''Budget Tip: '' @ get_budget_tip budget)]\<rparr>,
           \<lparr>Day = 2, Activities = y @ [PStr ''Take a flight from Goa back to Mumbai.'',
               PStr (''Budget Tip: '' @ get_budget_tip budget)]\<rparr>], net, g'))"
    unfolding generate_itinerary_def base
    using build annotate by (simp add: tasks_def groups Let_def)
  with xy show ?thesis
    by (intro exI [of _ "\<lparr>Day = 1, Activities = PStr ''Take a flight from Mumbai to Goa.'' # x @
          [PStr (''Budget Tip: '' @ get_budget_tip budget)]\<rparr>"]
        exI [of _ "\<lparr>Day = 2, Activities = y @ [PStr ''Take a flight from Goa back to Mumbai.'',
          PStr (''Budget Tip: '' @ get_budget_tip budget)]\<rparr>"]
        exI [of _ x] exI [of _ y] exI [of _ g']) simp
qed

subsection \<open>Live-source fetch\<close>

text \<open>
  Inside \<open>create_global_pool\<close> membership is equality of values, while Python tests
  with \<open>==\<close>. On the lists the fetch passes on the two agree: after its own
  deduplication no two tasks are equal under \<open>==\<close>, so the first loop of the pool builder
  keeps them all, and a fallback item, a string, equals under \<open>==\<close> nothing but itself.
\<close>

lemma py_eq_PStr: "py_eq x (PStr s) \<longleftrightarrow> x = PStr s"
  by (cases x) auto

lemma py_in_PStr: "py_in (PStr s) xs \<longleftrightarrow> PStr s \<in> set xs"
  by (auto simp: py_in_def list_ex_iff py_eq_PStr)

lemma py_eq_refl: "py_eq x x"
proof (induction x)
  case (PList xs)
  then show ?case
    by (simp add: list_all2_same)
next
  case (PDict kvs)
  then show ?case
    by (fastforce simp: snds.simps)
qed simp_all

lemma py_unique_distinct: "distinct acc \<Longrightarrow> distinct (py_unique acc tasks)"
proof (induction tasks arbitrary: acc)
  case Nil
  then show ?case by simp
next
  case (Cons t tasks)
  have "t \<notin> set acc" if "\<not> py_in t acc"
    using that py_eq_refl [of t] by (auto simp: py_in_def list_ex_iff)
  with Cons show ?case
    by simp
qed

lemma add_unique_py_unique: "add_unique [] (py_unique [] tasks) = py_unique [] tasks"
  using py_unique_distinct [of "[]" tasks]
  by (simp add: add_unique_Nil first_occurrences_distinct)








text \<open>
  A status code outside 200 to 299 is a failure only from 400 on: \<open>raise_for_status\<close>
  lets a response with status 304 pass, and its body is read.
\<close>

lemma fetch_tasks_status_below_400:
  "fetch_tasks (Response 304 (Some (PList [PStr ''Rome'', PList [PStr ''Colosseum'']]))) =
     Inr [PStr ''Colosseum'']"
  by (simp add: fetch_tasks_def raise_for_status_def)





end
